theory Spec2Isabelle
  imports Main "HOL-Library.Word" "HOL-Library.AList" "HOL-Library.Multiset"
begin

section \<open>The DynamoDB item and batch-write subsystem of goamz\<close>

text \<open>
  The embedded code is the \<open>dynamodb\<close> package's item file (in the sources it follows
  the RDS client): \<open>Item\<close>, \<open>BatchWriteItemRequest\<close>, \<open>Table.GetItem\<close>,
  \<open>Table.BatchWriteItem\<close> and \<open>parseAttributes\<close>.

  Conventions of the embedding.
  \<^item> Go's \<open>int\<close> is a 64-bit two's complement word: \<open>+\<close> wraps, comparisons are the
    signed ones (\<open><s\<close>, \<open>\<le>s\<close>). \<open>len\<close> of a slice is kept as a \<open>nat\<close> where it is only
    compared with a small constant.
  \<^item> A Go map that the code ranges over is an association list; the order of the list is the
    order in which \<open>range\<close> visits the entries, which Go leaves open. Theorems hold for
    every list, hence for every order. A Go map that is only built and returned is a HOL map.
  \<^item> An error is a value of the datatype \<open>error\<close>, one constructor for each
    \<open>errors.New\<close> of the source and one for each kind of error that is passed through.
  \<^item> The decoded JSON document of \<open>go-simplejson\<close> (a library outside the repository) is
    the datatype \<open>json\<close>, and its \<open>Get\<close>, \<open>CheckGet\<close> and \<open>Map\<close> are written out.
\<close>

subsection \<open>Attributes and items\<close>

text \<open>
  The struct \<open>Attribute\<close> and the constants \<open>TYPE_STRING\<close> ... \<open>TYPE_BINARY_SET\<close> are
  declared in a file that is not among the sources; \<open>parseAttributes\<close> shows the four fields,
  and that the constants are strings used both as the \<open>Type\<close> and as the key of the wire
  object. Modelled from the spec: the six tags are the keys of the attribute wire form,
  \<open>S\<close>, \<open>N\<close>, \<open>B\<close>, \<open>SS\<close>, \<open>NS\<close>, \<open>BS\<close>.
\<close>

record Attribute =
  Type :: string
  Name :: string
  Value :: string
  SetValues :: "string list"

definition TYPE_STRING :: string where "TYPE_STRING = ''S''"
definition TYPE_NUMBER :: string where "TYPE_NUMBER = ''N''"
definition TYPE_BINARY :: string where "TYPE_BINARY = ''B''"
definition TYPE_STRING_SET :: string where "TYPE_STRING_SET = ''SS''"
definition TYPE_NUMBER_SET :: string where "TYPE_NUMBER_SET = ''NS''"
definition TYPE_BINARY_SET :: string where "TYPE_BINARY_SET = ''BS''"

record Item =
  attributes :: "Attribute list"

definition NewItem :: Item where
  "NewItem = \<lparr>attributes = []\<rparr>"

definition AddAttribute :: "Item \<Rightarrow> Attribute \<Rightarrow> Item" where
  "AddAttribute i attribute = i\<lparr>attributes := attributes i @ [attribute]\<rparr>"

text \<open>
  \<open>AddAttributesFromMap\<close> ranges over a map; the association list it is given lists the map
  in the order of that range.
\<close>

definition AddAttributesFromMap :: "Item \<Rightarrow> (string \<times> Attribute) list \<Rightarrow> Item" where
  "AddAttributesFromMap i attrs = foldl (\<lambda>i (_, attribute). AddAttribute i attribute) i attrs"

definition GetAttributes :: "Item \<Rightarrow> Attribute list" where
  "GetAttributes i = attributes i"

type_synonym goint = "64 word"

definition GetSize :: "Item \<Rightarrow> goint" where
  "GetSize i = foldl (\<lambda>size attribute. size + of_nat (length (Value attribute))) 0 (attributes i)"

subsection \<open>The batch write request\<close>

record BatchWriteItemOperations =
  deleteRequest :: "Item list"
  putRequest :: "Item list"

record BatchWriteItemRequest =
  operations :: "(string \<times> BatchWriteItemOperations) list"
  returnConsumedCapacity :: bool
  returnItemCollecionMetrics :: bool

definition NewBatchWriteItemRequest :: BatchWriteItemRequest where
  "NewBatchWriteItemRequest =
     \<lparr>operations = [], returnConsumedCapacity = False, returnItemCollecionMetrics = False\<rparr>"

definition tableOperations :: "BatchWriteItemRequest \<Rightarrow> string \<Rightarrow> BatchWriteItemOperations" where
  "tableOperations b table =
     (case map_of (operations b) table of
        None \<Rightarrow> \<lparr>deleteRequest = [], putRequest = []\<rparr>
      | Some ops \<Rightarrow> ops)"

definition AddDeleteRequest :: "BatchWriteItemRequest \<Rightarrow> string \<Rightarrow> Item \<Rightarrow> BatchWriteItemRequest" where
  "AddDeleteRequest b table item =
     (let ops = tableOperations b table
      in b\<lparr>operations :=
             AList.update table (ops\<lparr>deleteRequest := deleteRequest ops @ [item]\<rparr>) (operations b)\<rparr>)"

definition AddPutRequest :: "BatchWriteItemRequest \<Rightarrow> string \<Rightarrow> Item \<Rightarrow> BatchWriteItemRequest" where
  "AddPutRequest b table item =
     (let ops = tableOperations b table
      in b\<lparr>operations :=
             AList.update table (ops\<lparr>putRequest := putRequest ops @ [item]\<rparr>) (operations b)\<rparr>)"

definition GetOperations :: "BatchWriteItemRequest \<Rightarrow> (string \<times> BatchWriteItemOperations) list" where
  "GetOperations b = operations b"

definition GetDeleteRequest :: "BatchWriteItemOperations \<Rightarrow> Item list" where
  "GetDeleteRequest b = deleteRequest b"

definition GetPutRequest :: "BatchWriteItemOperations \<Rightarrow> Item list" where
  "GetPutRequest b = putRequest b"

definition GetItems :: "BatchWriteItemRequest \<Rightarrow> Item list" where
  "GetItems b =
     foldl (\<lambda>items (_, ops).
              foldl (\<lambda>items request. items @ [request])
                (foldl (\<lambda>items request. items @ [request]) items (GetDeleteRequest ops))
                (GetPutRequest ops))
       [] (GetOperations b)"

subsection \<open>Errors, JSON documents and the transport\<close>

datatype error =
    TooManyItems        \<comment> \<open>Each request cannot contain more than 25 items\<close>
  | EmptyRequest        \<comment> \<open>The request must contain at least 1 item\<close>
  | ItemTooLarge        \<comment> \<open>The size of the item cannot exceed 64KB\<close>
  | RequestTooLarge     \<comment> \<open>The size of the request cannot exceed 1MB\<close>
  | MalformedResponse   \<comment> \<open>Unexpected response ...\<close>
  | ErrNotFound
  | TransportError string   \<comment> \<open>the error of \<open>queryServer\<close>, passed through\<close>
  | JsonError string        \<comment> \<open>the error of \<open>simplejson.NewJson\<close>, passed through\<close>

datatype json =
    JNull
  | JBool bool
  | JNumber string
  | JString string
  | JArray "json list"
  | JObject "(string \<times> json) list"

definition Json_Map :: "json \<Rightarrow> (string \<times> json) list option" where
  "Json_Map j = (case j of JObject m \<Rightarrow> Some m | _ \<Rightarrow> None)"

definition Json_Get :: "json \<Rightarrow> string \<Rightarrow> json" where
  "Json_Get j key =
     (case Json_Map j of
        Some m \<Rightarrow> (case map_of m key of Some val \<Rightarrow> val | None \<Rightarrow> JNull)
      | None \<Rightarrow> JNull)"

definition Json_CheckGet :: "json \<Rightarrow> string \<Rightarrow> json option" where
  "Json_CheckGet j key =
     (case Json_Map j of Some m \<Rightarrow> map_of m key | None \<Rightarrow> None)"

text \<open>
  The query builder, \<open>Table\<close> and \<open>Key\<close> are declared outside the sources; a query is
  kept as the calls that built it, over any type of tables and keys.
\<close>

datatype ('t, 'k) Query =
    AddKey 't 'k
  | AddBatchWriteItemOperations BatchWriteItemRequest

text \<open>
  What the code runs against: the signed HTTP call \<open>queryServer\<close>, the naming \<open>target\<close> of
  an operation, the JSON parser \<open>NewJson\<close>, and \<open>rangeOrder\<close>, the order in which Go ranges
  over the attribute map that \<open>parseAttributes\<close> has just built.
\<close>

record ('t, 'k) Env =
  target :: "string \<Rightarrow> string"
  queryServer :: "string \<Rightarrow> ('t, 'k) Query \<Rightarrow> string + string"
  NewJson :: "string \<Rightarrow> string + json"
  rangeOrder :: "(string \<times> Attribute) list \<Rightarrow> (string \<times> Attribute) list"

subsection \<open>Decoding attributes\<close>

text \<open>
  The loop that fills a set's slice: \<open>arry\<close> is made with one empty string for each wire
  element, and position \<open>i\<close> is assigned when the element is a string.
\<close>

fun fillSet :: "json list \<Rightarrow> nat \<Rightarrow> string list \<Rightarrow> string list" where
  "fillSet [] i arry = arry"
| "fillSet (ivalue # vals) i arry =
     fillSet vals (Suc i) (case ivalue of JString val \<Rightarrow> arry[i := val] | _ \<Rightarrow> arry)"

definition makeSet :: "json list \<Rightarrow> string list" where
  "makeSet vals = fillSet vals 0 (replicate (length vals) [])"

definition asString :: "json option \<Rightarrow> string option" where
  "asString v = (case v of Some (JString s) \<Rightarrow> Some s | _ \<Rightarrow> None)"

definition asArray :: "json option \<Rightarrow> json list option" where
  "asArray v = (case v of Some (JArray vals) \<Rightarrow> Some vals | _ \<Rightarrow> None)"

text \<open>The body of the loop of \<open>parseAttributes\<close>: one entry of the map, decoded or dropped.\<close>

definition parseAttribute :: "string \<Rightarrow> json \<Rightarrow> Attribute option" where
  "parseAttribute key value =
     (case value of
        JObject v \<Rightarrow>
          (case asString (map_of v TYPE_STRING) of
             Some val \<Rightarrow> Some \<lparr>Type = TYPE_STRING, Name = key, Value = val, SetValues = []\<rparr>
           | None \<Rightarrow>
          (case asString (map_of v TYPE_NUMBER) of
             Some val \<Rightarrow> Some \<lparr>Type = TYPE_NUMBER, Name = key, Value = val, SetValues = []\<rparr>
           | None \<Rightarrow>
          (case asString (map_of v TYPE_BINARY) of
             Some val \<Rightarrow> Some \<lparr>Type = TYPE_BINARY, Name = key, Value = val, SetValues = []\<rparr>
           | None \<Rightarrow>
          (case asArray (map_of v TYPE_STRING_SET) of
             Some vals \<Rightarrow>
               Some \<lparr>Type = TYPE_STRING_SET, Name = key, Value = [], SetValues = makeSet vals\<rparr>
           | None \<Rightarrow>
          (case asArray (map_of v TYPE_NUMBER_SET) of
             Some vals \<Rightarrow>
               Some \<lparr>Type = TYPE_NUMBER_SET, Name = key, Value = [], SetValues = makeSet vals\<rparr>
           | None \<Rightarrow>
          (case asArray (map_of v TYPE_BINARY_SET) of
             Some vals \<Rightarrow>
               Some \<lparr>Type = TYPE_BINARY_SET, Name = key, Value = [], SetValues = makeSet vals\<rparr>
           | None \<Rightarrow> None))))))
      | _ \<Rightarrow> None)"

fun parseAttributesLoop ::
  "(string \<times> json) list \<Rightarrow> (string \<times> Attribute) list \<Rightarrow> (string \<times> Attribute) list" where
  "parseAttributesLoop [] results = results"
| "parseAttributesLoop ((key, value) # s) results =
     parseAttributesLoop s
       (case parseAttribute key value of
          Some a \<Rightarrow> AList.update key a results
        | None \<Rightarrow> results)"

definition parseAttributes :: "(string \<times> json) list \<Rightarrow> (string \<times> Attribute) list" where
  "parseAttributes s = parseAttributesLoop s []"

subsection \<open>GetItem\<close>

type_synonym ('t, 'k) calls = "(string \<times> ('t, 'k) Query) list"

definition GetItem ::
  "('t, 'k) Env \<Rightarrow> 't \<Rightarrow> 'k \<Rightarrow> (error + (string \<times> Attribute) list) \<times> ('t, 'k) calls" where
  "GetItem env t key =
     (let q = AddKey t key; call = (target env ''GetItem'', q)
      in case queryServer env (target env ''GetItem'') q of
           Inl err \<Rightarrow> (Inl (TransportError err), [call])
         | Inr jsonResponse \<Rightarrow>
             (case NewJson env jsonResponse of
                Inl err \<Rightarrow> (Inl (JsonError err), [call])
              | Inr js \<Rightarrow>
                  (case Json_CheckGet js ''Item'' of
                     None \<Rightarrow> (Inl ErrNotFound, [call])
                   | Some itemJson \<Rightarrow>
                       (case Json_Map itemJson of
                          None \<Rightarrow> (Inl MalformedResponse, [call])
                        | Some item \<Rightarrow> (Inr (parseAttributes item), [call])))))"

subsection \<open>BatchWriteItem\<close>

text \<open>The size loop: it adds each item's size to the total, then tests the item.\<close>

fun sizeLoop :: "Item list \<Rightarrow> goint \<Rightarrow> error + goint" where
  "sizeLoop [] totalSize = Inr totalSize"
| "sizeLoop (item # items) totalSize =
     (let size = GetSize item; totalSize = totalSize + size
      in if 65536 <s size then Inl ItemTooLarge else sizeLoop items totalSize)"

type_synonym TableResult = "string \<rightharpoonup> Item list"
type_synonym Results = "string \<rightharpoonup> TableResult"

definition appendItem :: "TableResult \<Rightarrow> string \<Rightarrow> Item \<Rightarrow> TableResult" where
  "appendItem tableResult opType item =
     tableResult(opType \<mapsto> (case tableResult opType of None \<Rightarrow> [] | Some xs \<Rightarrow> xs) @ [item])"

fun itemsLoop ::
  "((string \<times> Attribute) list \<Rightarrow> (string \<times> Attribute) list) \<Rightarrow> string \<Rightarrow>
   (string \<times> json) list \<Rightarrow> TableResult \<Rightarrow> error + TableResult" where
  "itemsLoop ro opType [] tableResult = Inr tableResult"
| "itemsLoop ro opType ((_, attributesJson) # itemsArray) tableResult =
     (case attributesJson of
        JObject attributesArray \<Rightarrow>
          itemsLoop ro opType itemsArray
            (appendItem tableResult opType
               (AddAttributesFromMap NewItem (ro (parseAttributes attributesArray))))
      | _ \<Rightarrow> Inl MalformedResponse)"

fun operationsLoop ::
  "((string \<times> Attribute) list \<Rightarrow> (string \<times> Attribute) list) \<Rightarrow>
   (string \<times> json) list \<Rightarrow> TableResult \<Rightarrow> error + TableResult" where
  "operationsLoop ro [] tableResult = Inr tableResult"
| "operationsLoop ro ((opType, itemsJson) # opers) tableResult =
     (case itemsJson of
        JObject itemsArray \<Rightarrow>
          (case itemsLoop ro opType itemsArray tableResult of
             Inl e \<Rightarrow> Inl e
           | Inr tableResult' \<Rightarrow> operationsLoop ro opers tableResult')
      | _ \<Rightarrow> Inl MalformedResponse)"

fun containerLoop ::
  "((string \<times> Attribute) list \<Rightarrow> (string \<times> Attribute) list) \<Rightarrow>
   json list \<Rightarrow> TableResult \<Rightarrow> error + TableResult" where
  "containerLoop ro [] tableResult = Inr tableResult"
| "containerLoop ro (container # containerArray) tableResult =
     (case container of
        JObject opers \<Rightarrow>
          (case operationsLoop ro opers tableResult of
             Inl e \<Rightarrow> Inl e
           | Inr tableResult' \<Rightarrow> containerLoop ro containerArray tableResult')
      | _ \<Rightarrow> Inl MalformedResponse)"

fun tablesLoop ::
  "((string \<times> Attribute) list \<Rightarrow> (string \<times> Attribute) list) \<Rightarrow>
   (string \<times> json) list \<Rightarrow> Results \<Rightarrow> error + Results" where
  "tablesLoop ro [] results = Inr results"
| "tablesLoop ro ((table, containerJson) # tables) results =
     (case containerJson of
        JArray containerArray \<Rightarrow>
          (case containerLoop ro containerArray Map.empty of
             Inl e \<Rightarrow> Inl e
           | Inr tableResult \<Rightarrow> tablesLoop ro tables (results(table \<mapsto> tableResult)))
      | _ \<Rightarrow> Inl MalformedResponse)"

definition BatchWriteItem ::
  "('t, 'k) Env \<Rightarrow> BatchWriteItemRequest \<Rightarrow> (error + Results) \<times> ('t, 'k) calls" where
  "BatchWriteItem env request =
     (if length (GetItems request) > 25 then (Inl TooManyItems, [])
      else if length (GetItems request) = 0 then (Inl EmptyRequest, [])
      else case sizeLoop (GetItems request) 0 of
             Inl e \<Rightarrow> (Inl e, [])
           | Inr totalSize \<Rightarrow>
               if 1048576 <s totalSize then (Inl RequestTooLarge, [])
               else
                 (let q = AddBatchWriteItemOperations request;
                      call = (target env ''BatchWriteItem'', q)
                  in case queryServer env (target env ''BatchWriteItem'') q of
                       Inl err \<Rightarrow> (Inl (TransportError err), [call])
                     | Inr jsonResponse \<Rightarrow>
                         (case NewJson env jsonResponse of
                            Inl err \<Rightarrow> (Inl (JsonError err), [call])
                          | Inr js \<Rightarrow>
                              (case Json_Map (Json_Get js ''UnprocessedItems'') of
                                 None \<Rightarrow> (Inl MalformedResponse, [call])
                               | Some tables \<Rightarrow>
                                   (case tablesLoop (rangeOrder env) tables Map.empty of
                                      Inl e \<Rightarrow> (Inl e, [call])
                                    | Inr results \<Rightarrow> (Inr results, [call]))))))"

subsection \<open>The validation order of the specification\<close>

text \<open>
  The order of the checks as the specification words it: item-count lower bound, item-count
  upper bound, per-item size, aggregate size; the first violated check is the one reported.
  This definition follows the specification, not the code, and is compared with
  \<open>BatchWriteItem\<close> below.
\<close>

definition specValidate :: "BatchWriteItemRequest \<Rightarrow> error option" where
  "specValidate request =
     (let items = GetItems request
      in if length items = 0 then Some EmptyRequest
         else if 25 < length items then Some TooManyItems
         else if \<exists>item \<in> set items. 65536 <s GetSize item then Some ItemTooLarge
         else if 1048576 <s sum_list (map GetSize items) then Some RequestTooLarge
         else None)"

subsection \<open>Sizes as the specification words them\<close>

definition scalarType :: "string \<Rightarrow> bool" where
  "scalarType ty \<longleftrightarrow> ty = TYPE_STRING \<or> ty = TYPE_NUMBER \<or> ty = TYPE_BINARY"

definition setType :: "string \<Rightarrow> bool" where
  "setType ty \<longleftrightarrow> ty = TYPE_STRING_SET \<or> ty = TYPE_NUMBER_SET \<or> ty = TYPE_BINARY_SET"

definition scalarValueLength :: "Item \<Rightarrow> nat" where
  "scalarValueLength i =
     sum_list (map (\<lambda>a. length (Value a)) (filter (\<lambda>a. scalarType (Type a)) (attributes i)))"

definition valueLength :: "Item \<Rightarrow> nat" where
  "valueLength i = sum_list (map (\<lambda>a. length (Value a)) (attributes i))"

text \<open>The computed size of an item, read as the signed number that Go compares.\<close>

definition computedSize :: "Item \<Rightarrow> int" where
  "computedSize item = sint (GetSize item)"

subsection \<open>The attribute codec as the specification words it\<close>

text \<open>
  What a wire element contributes to a decoded set: its text when it is a string, the empty
  string otherwise.
\<close>

definition elementText :: "json \<Rightarrow> string" where
  "elementText e = (case e of JString s \<Rightarrow> s | _ \<Rightarrow> [])"

text \<open>
  Modelled from the spec: \<open>Encode\<close>, the request-side marshalling of an attribute, is in a
  file of the repository that is not among the sources. The specification gives it as the
  single-key tagged object \<open>{typeTag: value}\<close>, a scalar type carrying one string and a
  set type an ordered sequence of strings.
\<close>

definition Encode :: "Attribute \<Rightarrow> json" where
  "Encode a =
     JObject [(Type a,
               if setType (Type a) then JArray (map JString (SetValues a))
               else JString (Value a))]"

subsection \<open>Responses as the specification words them\<close>

text \<open>A document has a field when it is an object with that key.\<close>

definition hasField :: "json \<Rightarrow> string \<Rightarrow> bool" where
  "hasField js key = (case js of JObject m \<Rightarrow> key \<in> fst ` set m | _ \<Rightarrow> False)"





subsection \<open>Concrete inputs\<close>

text \<open>
  An environment whose transport always answers, and whose answer decodes to a given
  document; an item with one string attribute of a given length; a request over two tables.
\<close>

definition envOf :: "json \<Rightarrow> (unit, unit) Env" where
  "envOf js =
     \<lparr>target = (\<lambda>name. name), queryServer = (\<lambda>name q. Inr []),
      NewJson = (\<lambda>jsonResponse. Inr js), rangeOrder = (\<lambda>m. m)\<rparr>"

definition stringItem :: "nat \<Rightarrow> Item" where
  "stringItem n =
     \<lparr>attributes = [\<lparr>Type = TYPE_STRING, Name = ''a'', Value = replicate n CHR ''x'', SetValues = []\<rparr>]\<rparr>"

definition batchOf :: "Item list \<Rightarrow> Item list \<Rightarrow> Item list \<Rightarrow> BatchWriteItemRequest" where
  "batchOf dels puts puts' =
     \<lparr>operations = [(''T'', \<lparr>deleteRequest = dels, putRequest = puts\<rparr>),
                    (''U'', \<lparr>deleteRequest = [], putRequest = puts'\<rparr>)],
      returnConsumedCapacity = False, returnItemCollecionMetrics = False\<rparr>"

definition emptyAck :: json where
  "emptyAck = JObject [(''UnprocessedItems'', JObject [])]"

definition setItem :: Item where
  "setItem =
     \<lparr>attributes = [\<lparr>Type = TYPE_STRING_SET, Name = ''a'', Value = ''x'', SetValues = []\<rparr>]\<rparr>"

definition bigSets :: Item where
  "bigSets =
     \<lparr>attributes =
        [\<lparr>Type = TYPE_STRING_SET, Name = ''a'', Value = [],
           SetValues = replicate 100 (replicate 65536 CHR ''x'')\<rparr>,
         \<lparr>Type = TYPE_BINARY_SET, Name = ''b'', Value = [], SetValues = [''y'', ''z'']\<rparr>]\<rparr>"

definition crowded :: BatchWriteItemRequest where
  "crowded = batchOf [] (replicate 25 (stringItem 1)) [stringItem 65537]"

definition crowdedFull :: BatchWriteItemRequest where
  "crowdedFull = batchOf [] (replicate 26 (stringItem 65536)) []"

definition onePut :: BatchWriteItemRequest where
  "onePut = batchOf [] [stringItem 1] []"

definition mixedSet :: json where
  "mixedSet = JObject [(''SS'', JArray [JString ''a'', JNumber ''1'', JString ''b'', JNull])]"

definition bothFields :: Attribute where
  "bothFields = \<lparr>Type = TYPE_STRING, Name = ''a'', Value = ''x'', SetValues = [''y'']\<rparr>"


definition notAMapping :: json where
  "notAMapping = JObject [(''UnprocessedItems'', JString ''none'')]"





section \<open>Properties\<close>

subsection \<open>Sizes and the flattened item list\<close>

lemma GetSize_acc:
  "foldl (\<lambda>size attribute. size + (of_nat (length (Value attribute)) :: goint)) s xs
     = s + of_nat (sum_list (map (\<lambda>a. length (Value a)) xs))"
  by (induction xs arbitrary: s) (simp_all add: algebra_simps)

lemma GetSize_sum: "GetSize i = of_nat (valueLength i)"
  by (simp add: GetSize_def GetSize_acc valueLength_def)

lemma append_loop: "foldl (\<lambda>items request. items @ [request]) acc ys = acc @ ys"
  by (induction ys arbitrary: acc) simp_all

lemma GetItems_acc:
  "foldl (\<lambda>items (_, ops).
              foldl (\<lambda>items request. items @ [request])
                (foldl (\<lambda>items request. items @ [request]) items (GetDeleteRequest ops))
                (GetPutRequest ops)) acc xs
   = acc @ concat (map (\<lambda>(_, ops). deleteRequest ops @ putRequest ops) xs)"
  by (induction xs arbitrary: acc) (auto simp: append_loop GetDeleteRequest_def GetPutRequest_def)

lemma GetItems_concat:
  "GetItems b = concat (map (\<lambda>(_, ops). deleteRequest ops @ putRequest ops) (operations b))"
  by (simp add: GetItems_def GetOperations_def GetItems_acc)

lemma length_GetItems:
  "length (GetItems b) =
     (\<Sum>(_, ops)\<leftarrow>operations b. length (deleteRequest ops) + length (putRequest ops))"
proof -
  have "length (concat (map (\<lambda>(_, ops). deleteRequest ops @ putRequest ops) xs)) =
        (\<Sum>(_, ops)\<leftarrow>xs. length (deleteRequest ops) + length (putRequest ops))"
    for xs :: "(string \<times> BatchWriteItemOperations) list"
    by (induction xs) auto
  then show ?thesis by (simp add: GetItems_concat)
qed

text \<open>
  The builder: a new request holds no item, and each \<open>AddPutRequest\<close> or
  \<open>AddDeleteRequest\<close> adds exactly one, whatever the table.
\<close>

lemma length_GetItems_New: "length (GetItems NewBatchWriteItemRequest) = 0"
  by (simp add: length_GetItems NewBatchWriteItemRequest_def)

lemma count_after_put:
  "(\<Sum>(_, ops)\<leftarrow>AList.update table
        ((case map_of xs table of None \<Rightarrow> \<lparr>deleteRequest = [], putRequest = []\<rparr> | Some ops \<Rightarrow> ops)
           \<lparr>putRequest := putRequest (case map_of xs table of
               None \<Rightarrow> \<lparr>deleteRequest = [], putRequest = []\<rparr> | Some ops \<Rightarrow> ops) @ [item]\<rparr>) xs.
      length (deleteRequest ops) + length (putRequest ops))
   = Suc (\<Sum>(_, ops)\<leftarrow>xs. length (deleteRequest ops) + length (putRequest ops))"
  by (induction xs) auto

lemma length_GetItems_AddPutRequest:
  "length (GetItems (AddPutRequest b table item)) = Suc (length (GetItems b))"
  by (simp add: length_GetItems AddPutRequest_def tableOperations_def Let_def count_after_put)

lemma count_after_delete:
  "(\<Sum>(_, ops)\<leftarrow>AList.update table
        ((case map_of xs table of None \<Rightarrow> \<lparr>deleteRequest = [], putRequest = []\<rparr> | Some ops \<Rightarrow> ops)
           \<lparr>deleteRequest := deleteRequest (case map_of xs table of
               None \<Rightarrow> \<lparr>deleteRequest = [], putRequest = []\<rparr> | Some ops \<Rightarrow> ops) @ [item]\<rparr>) xs.
      length (deleteRequest ops) + length (putRequest ops))
   = Suc (\<Sum>(_, ops)\<leftarrow>xs. length (deleteRequest ops) + length (putRequest ops))"
  by (induction xs) auto

lemma length_GetItems_AddDeleteRequest:
  "length (GetItems (AddDeleteRequest b table item)) = Suc (length (GetItems b))"
  by (simp add: length_GetItems AddDeleteRequest_def tableOperations_def Let_def count_after_delete)

lemma sizeLoop_eq:
  "sizeLoop items t =
     (if \<exists>item \<in> set items. 65536 <s GetSize item then Inl ItemTooLarge
      else Inr (t + sum_list (map GetSize items)))"
  by (induction items arbitrary: t) (auto simp: Let_def algebra_simps)

text \<open>
  \<open>BatchWriteItem\<close> ranges three times over the map of operations, and Go may visit the
  tables in a different order each time. Neither the number of items nor the outcome of the
  size loop depends on that order.
\<close>

lemma mset_GetItems:
  assumes "mset (operations b) = mset (operations b')"
  shows "mset (GetItems b) = mset (GetItems b')"
proof -
  have h: "mset (concat (map f xs)) = (\<Sum>x\<in>#mset xs. mset (f x))"
    for f :: "'a \<Rightarrow> 'b list" and xs
    by (induction xs) auto
  show ?thesis by (simp add: GetItems_concat h assms)
qed

lemma sizeLoop_mset:
  assumes "mset items = mset items'"
  shows "sizeLoop items t = sizeLoop items' t"
proof -
  have "set items = set items'" using assms by (rule mset_eq_setD)
  moreover have "sum_list (map GetSize items) = sum_list (map GetSize items')"
    using assms by (metis mset_map sum_mset_sum_list)
  ultimately show ?thesis by (simp add: sizeLoop_eq)
qed

lemma specValidate_mset:
  assumes "mset (operations b) = mset (operations b')"
  shows "specValidate b = specValidate b'"
proof -
  have m: "mset (GetItems b) = mset (GetItems b')"
    using assms by (rule mset_GetItems)
  then have "length (GetItems b) = length (GetItems b')" "set (GetItems b) = set (GetItems b')"
    by (auto dest: mset_eq_length mset_eq_setD)
  moreover have "sum_list (map GetSize (GetItems b)) = sum_list (map GetSize (GetItems b'))"
    using m by (metis mset_map sum_mset_sum_list)
  moreover have "GetItems b = [] \<longleftrightarrow> GetItems b' = []"
    using m by (metis mset_zero_iff)
  ultimately show ?thesis by (simp add: specValidate_def Let_def)
qed

subsection \<open>The two halves of BatchWriteItem\<close>

lemma BatchWriteItem_invalid:
  "specValidate request = Some e \<Longrightarrow> BatchWriteItem env request = (Inl e, [])"
  by (auto simp: specValidate_def BatchWriteItem_def sizeLoop_eq Let_def split: if_splits)

lemma BatchWriteItem_valid:
  "specValidate request = None \<Longrightarrow>
   BatchWriteItem env request =
     (let q = AddBatchWriteItemOperations request;
          name = target env ''BatchWriteItem''
      in (case queryServer env name q of
            Inl err \<Rightarrow> Inl (TransportError err)
          | Inr jsonResponse \<Rightarrow>
              (case NewJson env jsonResponse of
                 Inl err \<Rightarrow> Inl (JsonError err)
               | Inr js \<Rightarrow>
                   (case Json_Map (Json_Get js ''UnprocessedItems'') of
                      None \<Rightarrow> Inl MalformedResponse
                    | Some tables \<Rightarrow> tablesLoop (rangeOrder env) tables Map.empty)),
          [(name, q)]))"
  by (auto simp: specValidate_def BatchWriteItem_def sizeLoop_eq Let_def
           split: if_splits sum.splits option.splits)

text \<open>The only error of the response parser is \<open>MalformedResponse\<close>.\<close>

lemma tablesLoop_error: "tablesLoop ro tables results = Inl e \<Longrightarrow> e = MalformedResponse"
proof -
  have i: "itemsLoop r opType xs tr = Inl e \<Longrightarrow> e = MalformedResponse" for r opType xs tr
    by (induction r opType xs tr rule: itemsLoop.induct) (auto split: json.splits)
  have ops: "operationsLoop r xs tr = Inl e \<Longrightarrow> e = MalformedResponse" for r xs tr
    by (induction r xs tr rule: operationsLoop.induct) (auto split: json.splits sum.splits intro: i)
  have c: "containerLoop r xs tr = Inl e \<Longrightarrow> e = MalformedResponse" for r xs tr
    by (induction r xs tr rule: containerLoop.induct) (auto split: json.splits sum.splits intro: ops)
  show "tablesLoop ro tables results = Inl e \<Longrightarrow> e = MalformedResponse"
    by (induction ro tables results rule: tablesLoop.induct)
       (auto split: json.splits sum.splits intro: c)
qed

lemma BatchWriteItem_valid_error:
  assumes "specValidate request = None" "fst (BatchWriteItem env request) = Inl e"
  shows "e = MalformedResponse \<or> (\<exists>err. e = TransportError err) \<or> (\<exists>err. e = JsonError err)"
  using assms(2) unfolding BatchWriteItem_valid [OF assms(1)]
  by (auto simp: Let_def split: sum.splits option.splits dest: tablesLoop_error)

lemma BatchWriteItem_valid_calls:
  "specValidate request = None \<Longrightarrow>
   snd (BatchWriteItem env request) =
     [(target env ''BatchWriteItem'', AddBatchWriteItemOperations request)]"
  by (simp add: BatchWriteItem_valid Let_def)

subsection \<open>Signed sums of 64-bit words\<close>

lemma word_sum_sint:
  "sum_list (xs :: goint list) = of_int (sum_list (map sint xs))"
  by (induction xs) simp_all

lemma sint_sum_in_range:
  assumes "- (2 ^ 63) \<le> sum_list (map sint xs)" "sum_list (map sint xs) < 2 ^ 63"
  shows "sint (sum_list (xs :: goint list)) = sum_list (map sint xs)"
proof -
  have "sint (sum_list xs) = signed_take_bit 63 (sum_list (map sint xs))"
    by (subst word_sum_sint) (simp add: sint_sbintrunc')
  also have "\<dots> = sum_list (map sint xs)"
    using assms by (rule signed_take_bit_int_eq_self)
  finally show ?thesis .
qed

lemma sum_list_bounded:
  "\<forall>x \<in> set xs. x \<le> (c :: int) \<Longrightarrow> sum_list xs \<le> int (length xs) * c"
  by (induction xs) (auto simp: algebra_simps)

lemma sint_of_nat_small:
  assumes "n < 2 ^ 63"
  shows "sint (of_nat n :: goint) = int n"
proof -
  have small: "int n < 2 ^ 63"
    using assms by simp
  have "sint (of_nat n :: goint) = signed_take_bit 63 (int n)"
    using sint_sbintrunc' [of "int n", where 'a = 64] by simp
  also have "\<dots> = int n"
    using small by (intro signed_take_bit_int_eq_self) simp_all
  finally show ?thesis .
qed

lemma computedSize_fun: "computedSize = (\<lambda>item. sint (GetSize item))"
  by (rule ext) (simp add: computedSize_def)

subsection \<open>Decoding\<close>

text \<open>The index loop that fills a set is the elementwise image of the wire sequence.\<close>

lemma fillSet_step:
  assumes "i < length arry" "arry ! i = []"
  shows "fillSet (v # vals) i arry = fillSet vals (Suc i) (arry[i := elementText v])"
proof (cases v)
  case (JString s)
  then show ?thesis by (simp add: elementText_def)
qed (use assms in \<open>simp_all add: elementText_def list_update_same_conv [THEN iffD2]\<close>)

lemma fillSet_prefix:
  "fillSet vals (length pre) (pre @ replicate (length vals) []) = pre @ map elementText vals"
proof (induction vals arbitrary: pre)
  case Nil
  show ?case by simp
next
  case (Cons v vals)
  let ?r = "replicate (length vals) ([] :: string)"
  have "fillSet (v # vals) (length pre) (pre @ [] # ?r)
        = fillSet vals (Suc (length pre)) ((pre @ [] # ?r)[length pre := elementText v])"
    by (rule fillSet_step) simp_all
  also have "(pre @ [] # ?r)[length pre := elementText v] = (pre @ [elementText v]) @ ?r"
    by simp
  also have "fillSet vals (Suc (length pre)) ((pre @ [elementText v]) @ ?r)
        = (pre @ [elementText v]) @ map elementText vals"
    using Cons.IH [of "pre @ [elementText v]"] by simp
  finally show ?case by simp
qed

lemma makeSet_map: "makeSet vals = map elementText vals"
  using fillSet_prefix [of vals "[]"] by (simp add: makeSet_def)

lemma makeSet_strings: "makeSet (map JString xs) = xs"
  by (simp add: makeSet_map comp_def elementText_def)

lemmas TYPE_defs = TYPE_STRING_def TYPE_NUMBER_def TYPE_BINARY_def
  TYPE_STRING_SET_def TYPE_NUMBER_SET_def TYPE_BINARY_SET_def

lemma parseAttribute_Some:
  assumes "parseAttribute key value = Some a"
  shows "(\<exists>v. value = JObject v \<and> Name a = key \<and>
     ((scalarType (Type a) \<and> map_of v (Type a) = Some (JString (Value a)) \<and> SetValues a = []) \<or>
      (setType (Type a) \<and> Value a = [] \<and>
        (\<exists>vals. map_of v (Type a) = Some (JArray vals) \<and> SetValues a = makeSet vals))))"
proof -
  obtain v where v: "value = JObject v"
    using assms by (cases "value") (simp_all add: parseAttribute_def)
  have s: "asString x = Some y \<longleftrightarrow> x = Some (JString y)" for x y
    by (auto simp: asString_def split: option.splits json.splits)
  have r: "asArray x = Some y \<longleftrightarrow> x = Some (JArray y)" for x y
    by (auto simp: asArray_def split: option.splits json.splits)
  show ?thesis
    using assms unfolding v parseAttribute_def
    by (auto simp: s r scalarType_def setType_def TYPE_defs split: option.splits)
qed

lemma parseAttribute_single_set:
  "setType tag \<Longrightarrow>
   parseAttribute key (JObject [(tag, JArray vals)])
     = Some \<lparr>Type = tag, Name = key, Value = [], SetValues = makeSet vals\<rparr>"
  by (auto simp: parseAttribute_def setType_def TYPE_defs asString_def asArray_def)

lemma parseAttribute_single_scalar:
  "scalarType tag \<Longrightarrow>
   parseAttribute key (JObject [(tag, JString val)])
     = Some \<lparr>Type = tag, Name = key, Value = val, SetValues = []\<rparr>"
  by (auto simp: parseAttribute_def scalarType_def TYPE_defs asString_def asArray_def)

subsection \<open>The response parser on well-formed entries\<close>







subsection \<open>The concrete inputs, evaluated\<close>

lemma GetItems_batchOf: "GetItems (batchOf dels puts puts') = dels @ puts @ puts'"
  by (simp add: GetItems_concat batchOf_def)

lemma GetSize_stringItem: "GetSize (stringItem n) = of_nat n"
  by (simp add: GetSize_sum valueLength_def stringItem_def)




section \<open>The specified properties\<close>

text \<open>
  C1. \<open>BatchWriteItem\<close> validates the request before any network call. For every request
  that violates one or more of the four bounds, the error reported is that of the first
  violated check in the order lower bound on the item count, upper bound on the item count,
  per-item size, aggregate size (the error that \<open>specValidate\<close> computes), and the list
  of transport calls is empty. The code tests the upper bound before the lower one; no
  request violates both, so the reported error is the same.
\<close>

theorem BatchWriteItem_first_violation:
  "length (GetItems request) = 0 \<or> 25 < length (GetItems request) \<or>
   (\<exists>item \<in> set (GetItems request). 65536 <s GetSize item) \<or>
   1048576 <s sum_list (map GetSize (GetItems request))
   \<Longrightarrow> \<exists>e. specValidate request = Some e \<and> BatchWriteItem env request = (Inl e, [])"
proof -
  assume "length (GetItems request) = 0 \<or> 25 < length (GetItems request) \<or>
   (\<exists>item \<in> set (GetItems request). 65536 <s GetSize item) \<or>
   1048576 <s sum_list (map GetSize (GetItems request))"
  then have "specValidate request \<noteq> None"
    by (auto simp: specValidate_def Let_def)
  then obtain e where "specValidate request = Some e"
    by blast
  then show ?thesis by (auto dest: BatchWriteItem_invalid)
qed

theorem BatchWriteItem_first_violation_witness:
  "specValidate (batchOf [] [] []) = Some EmptyRequest \<and>
   BatchWriteItem (envOf emptyAck) (batchOf [] [] []) = (Inl EmptyRequest, []) \<and>
   specValidate (batchOf [] (replicate 26 (stringItem 65537)) []) = Some TooManyItems \<and>
   BatchWriteItem (envOf emptyAck) (batchOf [] (replicate 26 (stringItem 65537)) [])
     = (Inl TooManyItems, []) \<and>
   specValidate (batchOf [] (replicate 20 (stringItem 65536)) [stringItem 65537])
     = Some ItemTooLarge \<and>
   BatchWriteItem (envOf emptyAck) (batchOf [] (replicate 20 (stringItem 65536)) [stringItem 65537])
     = (Inl ItemTooLarge, []) \<and>
   specValidate (batchOf [] (replicate 17 (stringItem 65536)) []) = Some RequestTooLarge \<and>
   BatchWriteItem (envOf emptyAck) (batchOf [] (replicate 17 (stringItem 65536)) [])
     = (Inl RequestTooLarge, [])"
proof -
  have a: "specValidate (batchOf [] [] []) = Some EmptyRequest"
    by (simp add: specValidate_def GetItems_batchOf)
  have b: "specValidate (batchOf [] (replicate 26 (stringItem 65537)) []) = Some TooManyItems"
    by (simp add: specValidate_def GetItems_batchOf)
  have c: "specValidate (batchOf [] (replicate 20 (stringItem 65536)) [stringItem 65537])
     = Some ItemTooLarge"
    by (simp add: specValidate_def GetItems_batchOf GetSize_stringItem)
  have d: "specValidate (batchOf [] (replicate 17 (stringItem 65536)) []) = Some RequestTooLarge"
    by (simp add: specValidate_def GetItems_batchOf GetSize_stringItem sum_list_replicate)
  show ?thesis
    using BatchWriteItem_first_violation [of "batchOf [] [] []" "envOf emptyAck"]
      BatchWriteItem_first_violation
        [of "batchOf [] (replicate 26 (stringItem 65537)) []" "envOf emptyAck"]
      BatchWriteItem_first_violation
        [of "batchOf [] (replicate 20 (stringItem 65536)) [stringItem 65537]" "envOf emptyAck"]
      BatchWriteItem_first_violation
        [of "batchOf [] (replicate 17 (stringItem 65536)) []" "envOf emptyAck"]
    by (simp add: a b c d GetItems_batchOf GetSize_stringItem sum_list_replicate)
qed

text \<open>
  C2. If the total item count across all tables and both operation kinds exceeds 25,
  \<open>BatchWriteItem\<close> fails with \<open>TooManyItems\<close> (and calls no transport). A request of
  exactly 25 items does not fail with \<open>TooManyItems\<close>, and when no item is larger than
  65536 bytes and the total is at most 1048576 bytes it is dispatched: the transport is
  called once, with the query built from the request.
\<close>

theorem BatchWriteItem_item_count_limit:
  "(25 < (\<Sum>(_, ops)\<leftarrow>operations request. length (deleteRequest ops) + length (putRequest ops))
      \<longrightarrow> BatchWriteItem env request = (Inl TooManyItems, [])) \<and>
   ((\<Sum>(_, ops)\<leftarrow>operations request. length (deleteRequest ops) + length (putRequest ops)) = 25
      \<longrightarrow> fst (BatchWriteItem env request) \<noteq> Inl TooManyItems \<and>
          ((\<forall>item \<in> set (GetItems request). GetSize item \<le>s 65536) \<and>
           sum_list (map GetSize (GetItems request)) \<le>s 1048576
           \<longrightarrow> snd (BatchWriteItem env request) =
                 [(target env ''BatchWriteItem'', AddBatchWriteItemOperations request)]))"
proof (intro conjI impI)
  assume "25 < (\<Sum>(_, ops)\<leftarrow>operations request. length (deleteRequest ops) + length (putRequest ops))"
  then show "BatchWriteItem env request = (Inl TooManyItems, [])"
    by (simp add: BatchWriteItem_def length_GetItems)
next
  assume n: "(\<Sum>(_, ops)\<leftarrow>operations request. length (deleteRequest ops) + length (putRequest ops)) = 25"
  then have len: "length (GetItems request) = 25" by (simp add: length_GetItems)
  show "fst (BatchWriteItem env request) \<noteq> Inl TooManyItems"
  proof (cases "specValidate request")
    case None
    then show ?thesis using BatchWriteItem_valid_error [OF None, of env TooManyItems] by auto
  next
    case (Some e)
    then have "e \<noteq> TooManyItems" using len by (auto simp: specValidate_def Let_def split: if_splits)
    then show ?thesis using BatchWriteItem_invalid [OF Some, of env] by simp
  qed
  assume "(\<forall>item \<in> set (GetItems request). GetSize item \<le>s 65536) \<and>
           sum_list (map GetSize (GetItems request)) \<le>s 1048576"
  then have "specValidate request = None"
    using len by (auto simp: specValidate_def Let_def signed.not_less)
  then show "snd (BatchWriteItem env request) =
                 [(target env ''BatchWriteItem'', AddBatchWriteItemOperations request)]"
    by (rule BatchWriteItem_valid_calls)
qed

theorem BatchWriteItem_item_count_limit_witness:
  "BatchWriteItem (envOf emptyAck) (batchOf (replicate 5 (stringItem 1)) (replicate 10 (stringItem 1)) (replicate 11 (stringItem 1)))
     = (Inl TooManyItems, []) \<and>
   fst (BatchWriteItem (envOf emptyAck) (batchOf (replicate 5 (stringItem 1)) (replicate 10 (stringItem 1)) (replicate 10 (stringItem 1))))
     \<noteq> Inl TooManyItems \<and>
   snd (BatchWriteItem (envOf emptyAck) (batchOf (replicate 5 (stringItem 1)) (replicate 10 (stringItem 1)) (replicate 10 (stringItem 1))))
     = [(''BatchWriteItem'', AddBatchWriteItemOperations (batchOf (replicate 5 (stringItem 1)) (replicate 10 (stringItem 1)) (replicate 10 (stringItem 1))))]"
proof -
  let ?r26 = "batchOf (replicate 5 (stringItem 1)) (replicate 10 (stringItem 1)) (replicate 11 (stringItem 1))"
  let ?r25 = "batchOf (replicate 5 (stringItem 1)) (replicate 10 (stringItem 1)) (replicate 10 (stringItem 1))"
  have h1: "25 < (\<Sum>(_, ops)\<leftarrow>operations ?r26. length (deleteRequest ops) + length (putRequest ops))"
    by (simp add: batchOf_def)
  have h2: "(\<Sum>(_, ops)\<leftarrow>operations ?r25. length (deleteRequest ops) + length (putRequest ops)) = 25"
    by (simp add: batchOf_def)
  have h3: "(\<forall>item \<in> set (GetItems ?r25). GetSize item \<le>s 65536) \<and>
            sum_list (map GetSize (GetItems ?r25)) \<le>s 1048576"
    by (simp add: GetItems_batchOf GetSize_stringItem sum_list_replicate word_sle_eq)
  have t: "target (envOf emptyAck) ''BatchWriteItem'' = ''BatchWriteItem''"
    by (simp add: envOf_def)
  show ?thesis
    using BatchWriteItem_item_count_limit [of ?r26 "envOf emptyAck"]
          BatchWriteItem_item_count_limit [of ?r25 "envOf emptyAck"] h1 h2 h3 t
    by simp
qed

text \<open>
  C3, as stated: for every item of a request, a computed size above 65536 makes
  \<open>BatchWriteItem\<close> fail with \<open>ItemTooLarge\<close>. The count of items is tested first: a
  request of 26 items, one of them of 65537 bytes, fails with \<open>TooManyItems\<close>.
\<close>

theorem BatchWriteItem_oversized_item_counterexample:
  "stringItem 65537 \<in> set (GetItems crowded) \<and> 65536 <s GetSize (stringItem 65537) \<and>
   BatchWriteItem (envOf emptyAck) crowded = (Inl TooManyItems, []) \<and>
   BatchWriteItem (envOf emptyAck) crowded \<noteq> (Inl ItemTooLarge, [])"
  by (simp add: crowded_def GetItems_batchOf GetSize_stringItem BatchWriteItem_def)

text \<open>
  C3, amended: in a request of at most 25 items, an item whose computed size exceeds 65536
  makes \<open>BatchWriteItem\<close> fail with \<open>ItemTooLarge\<close>, before any transport call; and a
  request whose items all have a computed size of at most 65536 (exactly 65536 included)
  never fails with \<open>ItemTooLarge\<close>.
\<close>

theorem BatchWriteItem_oversized_item:
  "(length (GetItems request) \<le> 25 \<and> item \<in> set (GetItems request) \<and> 65536 <s GetSize item
      \<longrightarrow> BatchWriteItem env request = (Inl ItemTooLarge, [])) \<and>
   ((\<forall>item \<in> set (GetItems request). GetSize item \<le>s 65536)
      \<longrightarrow> fst (BatchWriteItem env request) \<noteq> Inl ItemTooLarge)"
proof (intro conjI impI)
  assume a: "length (GetItems request) \<le> 25 \<and> item \<in> set (GetItems request) \<and> 65536 <s GetSize item"
  then have "GetItems request \<noteq> []" by auto
  with a have "specValidate request = Some ItemTooLarge"
    by (auto simp: specValidate_def Let_def)
  then show "BatchWriteItem env request = (Inl ItemTooLarge, [])"
    by (rule BatchWriteItem_invalid)
next
  assume a: "\<forall>item \<in> set (GetItems request). GetSize item \<le>s 65536"
  show "fst (BatchWriteItem env request) \<noteq> Inl ItemTooLarge"
  proof (cases "specValidate request")
    case None
    then show ?thesis using BatchWriteItem_valid_error [OF None, of env ItemTooLarge] by auto
  next
    case (Some e)
    then have "e \<noteq> ItemTooLarge"
      using a by (auto simp: specValidate_def Let_def signed.not_less split: if_splits)
    then show ?thesis using BatchWriteItem_invalid [OF Some, of env] by simp
  qed
qed

theorem BatchWriteItem_oversized_item_witness:
  "BatchWriteItem (envOf emptyAck) (batchOf [] [stringItem 65537] []) = (Inl ItemTooLarge, []) \<and>
   GetSize (stringItem 65536) = 65536 \<and>
   fst (BatchWriteItem (envOf emptyAck) (batchOf [] [stringItem 65536] [])) \<noteq> Inl ItemTooLarge"
  using BatchWriteItem_oversized_item
          [of "batchOf [] [stringItem 65537] []" "stringItem 65537" "envOf emptyAck"]
        BatchWriteItem_oversized_item
          [of "batchOf [] [stringItem 65536] []" "stringItem 65536" "envOf emptyAck"]
  by (simp add: GetItems_batchOf GetSize_stringItem)

text \<open>
  C4, as stated: whenever every item is within the per-item limit and the sum of the computed
  sizes exceeds 1048576, \<open>BatchWriteItem\<close> fails with \<open>RequestTooLarge\<close>. The count of
  items is tested first: 26 items of exactly 65536 bytes fail with \<open>TooManyItems\<close>.
\<close>

theorem BatchWriteItem_aggregate_size_counterexample:
  "GetItems crowdedFull = replicate 26 (stringItem 65536) \<and>
   GetSize (stringItem 65536) \<le>s 65536 \<and>
   1048576 < sum_list (map computedSize (GetItems crowdedFull)) \<and>
   BatchWriteItem (envOf emptyAck) crowdedFull = (Inl TooManyItems, []) \<and>
   BatchWriteItem (envOf emptyAck) crowdedFull \<noteq> (Inl RequestTooLarge, [])"
  by (simp add: crowdedFull_def GetItems_batchOf GetSize_stringItem BatchWriteItem_def
        sum_list_replicate computedSize_def)

text \<open>
  C4, amended: in a request of at most 25 items, each of a computed size of at most 65536,
  whose computed sizes add up to more than 1048576, \<open>BatchWriteItem\<close> fails with
  \<open>RequestTooLarge\<close>, before any transport call. The sum is the sum of integers; within
  these bounds the 64-bit total of the code does not wrap.
\<close>

theorem BatchWriteItem_aggregate_size:
  assumes "length (GetItems request) \<le> 25"
    and "\<forall>item \<in> set (GetItems request). GetSize item \<le>s 65536"
    and "1048576 < sum_list (map computedSize (GetItems request))"
  shows "BatchWriteItem env request = (Inl RequestTooLarge, [])"
proof -
  let ?xs = "map GetSize (GetItems request)"
  have s: "sum_list (map sint ?xs) = sum_list (map computedSize (GetItems request))"
    by (simp add: comp_def computedSize_fun)
  have "\<forall>x \<in> set (map sint ?xs). x \<le> 65536"
    using assms(2) by (auto simp: word_sle_eq)
  then have "sum_list (map sint ?xs) \<le> int (length (map sint ?xs)) * 65536"
    by (rule sum_list_bounded)
  also have "\<dots> \<le> 25 * 65536"
    using assms(1) by simp
  finally have up: "sum_list (map sint ?xs) < 2 ^ 63" by simp
  have lo: "- (2 ^ 63) \<le> sum_list (map sint ?xs)"
    using assms(3) s by simp
  have "sint (sum_list ?xs) = sum_list (map sint ?xs)"
    using lo up by (rule sint_sum_in_range)
  then have big: "1048576 <s sum_list ?xs"
    using assms(3) s by (simp add: word_sless_alt)
  have ne: "GetItems request \<noteq> []"
    using assms(3) by auto
  have "specValidate request = Some RequestTooLarge"
    using assms(1,2) big ne by (auto simp: specValidate_def Let_def signed.not_less)
  then show ?thesis by (rule BatchWriteItem_invalid)
qed

theorem BatchWriteItem_aggregate_size_witness:
  "length (GetItems (batchOf [] (replicate 17 (stringItem 65536)) [])) \<le> 25 \<and>
   GetSize (stringItem 65536) \<le>s 65536 \<and>
   BatchWriteItem (envOf emptyAck) (batchOf [] (replicate 17 (stringItem 65536)) [])
     = (Inl RequestTooLarge, [])"
  using BatchWriteItem_aggregate_size
          [of "batchOf [] (replicate 17 (stringItem 65536)) []" "envOf emptyAck"]
  by (simp add: GetItems_batchOf GetSize_stringItem sum_list_replicate computedSize_def)

text \<open>
  C5, as stated: \<open>GetSize\<close> is the sum of \<open>len(Value)\<close> over the scalar attributes. The
  code adds \<open>len(Value)\<close> of every attribute, whatever its \<open>Type\<close>: an item with one
  string-set attribute whose \<open>Value\<close> field holds one byte has size 1, and the sum over its
  scalar attributes is 0.
\<close>

theorem GetSize_scalar_only_counterexample:
  "computedSize setItem = 1 \<and> scalarValueLength setItem = 0"
  by (simp add: computedSize_def GetSize_sum valueLength_def scalarValueLength_def setItem_def
        scalarType_def TYPE_STRING_def TYPE_NUMBER_def TYPE_BINARY_def TYPE_STRING_SET_def)

text \<open>
  C5, amended: \<open>GetSize\<close> is the sum of \<open>len(Value)\<close> over all attributes of the item,
  as a Go \<open>int\<close> (the sum itself while it is below \<open>2^63\<close>); this is the sum over the scalar
  attributes when every other attribute has an empty \<open>Value\<close>. \<open>SetValues\<close> never
  contribute: replacing them leaves the size unchanged, and an item whose attributes all have
  an empty \<open>Value\<close> has size 0.
\<close>

theorem GetSize_all_values:
  "GetSize i = of_nat (valueLength i) \<and>
   (valueLength i < 2 ^ 63 \<longrightarrow> computedSize i = int (valueLength i)) \<and>
   ((\<forall>a \<in> set (attributes i). \<not> scalarType (Type a) \<longrightarrow> Value a = [])
      \<longrightarrow> valueLength i = scalarValueLength i) \<and>
   GetSize \<lparr>attributes = map (\<lambda>a. a\<lparr>SetValues := f a\<rparr>) (attributes i)\<rparr> = GetSize i \<and>
   ((\<forall>a \<in> set (attributes i). Value a = []) \<longrightarrow> GetSize i = 0)"
proof (intro conjI impI)
  show "GetSize i = of_nat (valueLength i)" by (rule GetSize_sum)
  show "computedSize i = int (valueLength i)" if "valueLength i < 2 ^ 63"
    using that by (simp add: computedSize_def GetSize_sum sint_of_nat_small)
  show "valueLength i = scalarValueLength i"
    if "\<forall>a \<in> set (attributes i). \<not> scalarType (Type a) \<longrightarrow> Value a = []"
  proof -
    have h: "sum_list (map (\<lambda>a. length (Value a)) xs)
          = sum_list (map (\<lambda>a. length (Value a)) (filter (\<lambda>a. scalarType (Type a)) xs))"
      if "\<forall>a \<in> set xs. \<not> scalarType (Type a) \<longrightarrow> Value a = []" for xs :: "Attribute list"
      using that by (induction xs) auto
    show ?thesis
      unfolding valueLength_def scalarValueLength_def using that by (rule h)
  qed
  show "GetSize \<lparr>attributes = map (\<lambda>a. a\<lparr>SetValues := f a\<rparr>) (attributes i)\<rparr> = GetSize i"
    by (simp add: GetSize_sum valueLength_def comp_def)
  show "GetSize i = 0" if "\<forall>a \<in> set (attributes i). Value a = []"
  proof -
    have h: "sum_list (map (\<lambda>a. length (Value a)) xs) = 0"
      if "\<forall>a \<in> set xs. Value a = []" for xs :: "Attribute list"
      using that by (induction xs) auto
    have "valueLength i = 0"
      unfolding valueLength_def using that by (rule h)
    then show ?thesis by (simp add: GetSize_sum)
  qed
qed

theorem GetSize_all_values_witness:
  "GetSize bigSets = 0 \<and> computedSize (stringItem 65537) = 65537 \<and>
   valueLength (stringItem 65537) = scalarValueLength (stringItem 65537)"
proof -
  have a: "\<forall>a \<in> set (attributes bigSets). Value a = []"
    by (simp add: bigSets_def)
  have b: "valueLength (stringItem 65537) < 2 ^ 63"
    by (simp add: valueLength_def stringItem_def)
  have c: "\<forall>a \<in> set (attributes (stringItem 65537)). \<not> scalarType (Type a) \<longrightarrow> Value a = []"
    by (simp add: stringItem_def scalarType_def)
  have "GetSize bigSets = 0"
    using GetSize_all_values [of bigSets "\<lambda>a. []"] a by blast
  moreover have "computedSize (stringItem 65537) = int (valueLength (stringItem 65537))"
    using GetSize_all_values [of "stringItem 65537" "\<lambda>a. []"] b by blast
  moreover have "valueLength (stringItem 65537) = scalarValueLength (stringItem 65537)"
    using GetSize_all_values [of "stringItem 65537" "\<lambda>a. []"] c by blast
  moreover have "valueLength (stringItem 65537) = 65537"
    by (simp add: valueLength_def stringItem_def)
  ultimately show ?thesis by simp
qed

text \<open>
  C6. When the request passes validation and the transport's answer decodes to a document:
  if the document has no \<open>UnprocessedItems\<close> field, or the field's value is not a mapping
  (a string, say), \<open>BatchWriteItem\<close> fails with \<open>MalformedResponse\<close>; if the field is
  the empty mapping, it succeeds with the empty result mapping.
\<close>

theorem BatchWriteItem_unprocessed_field:
  assumes "specValidate request = None"
    and "queryServer env (target env ''BatchWriteItem'') (AddBatchWriteItemOperations request)
           = Inr jsonResponse"
    and "NewJson env jsonResponse = Inr js"
  shows "(\<not> hasField js ''UnprocessedItems'' \<longrightarrow>
            fst (BatchWriteItem env request) = Inl MalformedResponse) \<and>
         (js = JObject m \<and> map_of m ''UnprocessedItems'' = Some v \<and> (\<forall>tables. v \<noteq> JObject tables)
            \<longrightarrow> fst (BatchWriteItem env request) = Inl MalformedResponse) \<and>
         (js = JObject m \<and> map_of m ''UnprocessedItems'' = Some (JObject [])
            \<longrightarrow> fst (BatchWriteItem env request) = Inr Map.empty)"
proof -
  have run: "fst (BatchWriteItem env request) =
     (case Json_Map (Json_Get js ''UnprocessedItems'') of
        None \<Rightarrow> Inl MalformedResponse
      | Some tables \<Rightarrow> tablesLoop (rangeOrder env) tables Map.empty)"
    by (simp add: BatchWriteItem_valid [OF assms(1)] assms(2,3) Let_def)
  have absent: "Json_Map (Json_Get js ''UnprocessedItems'') = None"
    if "\<not> hasField js ''UnprocessedItems''"
  proof (cases js)
    case (JObject m')
    with that have "map_of m' ''UnprocessedItems'' = None"
      by (simp add: hasField_def map_of_eq_None_iff)
    then show ?thesis by (simp add: JObject Json_Get_def Json_Map_def)
  qed (simp_all add: Json_Get_def Json_Map_def)
  have other: "Json_Map (Json_Get js ''UnprocessedItems'') = None"
    if "js = JObject m \<and> map_of m ''UnprocessedItems'' = Some v \<and> (\<forall>tables. v \<noteq> JObject tables)"
    using that by (cases v) (simp_all add: Json_Get_def Json_Map_def)
  have empty: "Json_Map (Json_Get js ''UnprocessedItems'') = Some []"
    if "js = JObject m \<and> map_of m ''UnprocessedItems'' = Some (JObject [])"
    using that by (simp add: Json_Get_def Json_Map_def)
  show ?thesis
  proof (intro conjI impI)
    assume "\<not> hasField js ''UnprocessedItems''"
    then have "Json_Map (Json_Get js ''UnprocessedItems'') = None" by (rule absent)
    then show "fst (BatchWriteItem env request) = Inl MalformedResponse"
      by (simp add: run)
  next
    assume "js = JObject m \<and> map_of m ''UnprocessedItems'' = Some v \<and>
            (\<forall>tables. v \<noteq> JObject tables)"
    then have "Json_Map (Json_Get js ''UnprocessedItems'') = None" by (rule other)
    then show "fst (BatchWriteItem env request) = Inl MalformedResponse"
      by (simp add: run)
  next
    assume "js = JObject m \<and> map_of m ''UnprocessedItems'' = Some (JObject [])"
    then have "Json_Map (Json_Get js ''UnprocessedItems'') = Some []" by (rule empty)
    then show "fst (BatchWriteItem env request) = Inr Map.empty"
      by (simp add: run)
  qed
qed

theorem BatchWriteItem_unprocessed_field_witness:
  "fst (BatchWriteItem (envOf (JObject [])) onePut) = Inl MalformedResponse \<and>
   fst (BatchWriteItem (envOf notAMapping) onePut) = Inl MalformedResponse \<and>
   fst (BatchWriteItem (envOf emptyAck) onePut) = Inr Map.empty"
proof -
  have v: "specValidate onePut = None"
    by (simp add: specValidate_def onePut_def GetItems_batchOf GetSize_stringItem word_sless_alt)
  have q: "queryServer (envOf js) (target (envOf js) ''BatchWriteItem'')
             (AddBatchWriteItemOperations onePut) = Inr []"
          "NewJson (envOf js) [] = Inr js" for js
    by (simp_all add: envOf_def)
  have "\<not> hasField (JObject []) ''UnprocessedItems''"
    by (simp add: hasField_def)
  then have "fst (BatchWriteItem (envOf (JObject [])) onePut) = Inl MalformedResponse"
    using BatchWriteItem_unprocessed_field [OF v q, of "JObject []"] by blast
  moreover have "fst (BatchWriteItem (envOf notAMapping) onePut) = Inl MalformedResponse"
    using BatchWriteItem_unprocessed_field
      [OF v q, of notAMapping "[(''UnprocessedItems'', JString ''none'')]" "JString ''none''"]
    by (simp add: notAMapping_def)
  moreover have "fst (BatchWriteItem (envOf emptyAck) onePut) = Inr Map.empty"
    using BatchWriteItem_unprocessed_field
      [OF v q, of emptyAck "[(''UnprocessedItems'', JObject [])]"]
    by (simp add: emptyAck_def)
  ultimately show ?thesis by simp
qed



text \<open>
  C8. \<open>GetItem\<close> fails with \<open>ErrNotFound\<close> exactly when the transport answered with a
  document that has no \<open>Item\<close> field; when \<open>Item\<close> is present and bound to the empty
  mapping, it succeeds with no attributes.
\<close>

theorem GetItem_not_found:
  "(fst (GetItem env t key) = Inl ErrNotFound \<longleftrightarrow>
      (\<exists>jsonResponse js.
         queryServer env (target env ''GetItem'') (AddKey t key) = Inr jsonResponse \<and>
         NewJson env jsonResponse = Inr js \<and> \<not> hasField js ''Item'')) \<and>
   (queryServer env (target env ''GetItem'') (AddKey t key) = Inr jsonResponse' \<and>
    NewJson env jsonResponse' = Inr (JObject m) \<and> map_of m ''Item'' = Some (JObject [])
      \<longrightarrow> fst (GetItem env t key) = Inr [])"
proof -
  have absent: "Json_CheckGet js ''Item'' = None \<longleftrightarrow> \<not> hasField js ''Item''" for js
    by (cases js) (simp_all add: Json_CheckGet_def Json_Map_def hasField_def map_of_eq_None_iff)
  show ?thesis
    by (auto simp: GetItem_def Let_def absent [symmetric] Json_CheckGet_def Json_Map_def
          parseAttributes_def split: sum.splits option.splits json.splits)
qed

theorem GetItem_not_found_witness:
  "fst (GetItem (envOf (JObject [])) () ()) = Inl ErrNotFound \<and>
   fst (GetItem (envOf (JObject [(''Item'', JObject [])])) () ()) = Inr []"
  using GetItem_not_found [of "envOf (JObject [])" "()" "()" "[]" "[]"]
        GetItem_not_found [of "envOf (JObject [(''Item'', JObject [])])" "()" "()" "[]" "[(''Item'', JObject [])]"]
  by (simp add: envOf_def hasField_def)

text \<open>
  C9, as stated: decoding the encoded wire form of any attribute of the six types gives the
  attribute back. A decoded scalar attribute always has empty \<open>SetValues\<close> (and a decoded
  set an empty \<open>Value\<close>): a String attribute that also carries \<open>SetValues\<close> comes back
  without them.
\<close>

theorem Decode_Encode_counterexample:
  "Type bothFields = TYPE_STRING \<and>
   parseAttribute (Name bothFields) (Encode bothFields)
     = Some \<lparr>Type = TYPE_STRING, Name = ''a'', Value = ''x'', SetValues = []\<rparr> \<and>
   parseAttribute (Name bothFields) (Encode bothFields) \<noteq> Some bothFields"
  by (simp add: bothFields_def Encode_def setType_def parseAttribute_def asString_def TYPE_defs)

text \<open>
  C9, amended: for every attribute of the six types whose other field is empty
  (\<open>SetValues\<close> for a scalar type, \<open>Value\<close> for a set type), decoding its encoded wire
  form under its name gives the attribute back unchanged, the elements of a set in their
  order.
\<close>

theorem Decode_Encode:
  "(scalarType (Type a) \<and> SetValues a = []) \<or> (setType (Type a) \<and> Value a = []) \<Longrightarrow>
   parseAttribute (Name a) (Encode a) = Some a \<and>
   parseAttributes [(Name a, Encode a)] = [(Name a, a)]"
proof -
  assume wf: "(scalarType (Type a) \<and> SetValues a = []) \<or> (setType (Type a) \<and> Value a = [])"
  have "parseAttribute (Name a) (Encode a) = Some a"
  proof (cases "setType (Type a)")
    case True
    then have "\<not> scalarType (Type a)"
      by (auto simp: setType_def scalarType_def TYPE_defs)
    with wf have "Value a = []" by blast
    then show ?thesis
      using True by (simp add: Encode_def parseAttribute_single_set makeSet_strings)
  next
    case False
    with wf have "scalarType (Type a)" "SetValues a = []" by blast+
    then show ?thesis
      using False by (simp add: Encode_def parseAttribute_single_scalar)
  qed
  then show ?thesis by (simp add: parseAttributes_def)
qed

theorem Decode_Encode_witness:
  "parseAttribute ''tags'' (Encode \<lparr>Type = TYPE_NUMBER_SET, Name = ''tags'', Value = [], SetValues = [''3'', ''1'', ''2'']\<rparr>)
     = Some \<lparr>Type = TYPE_NUMBER_SET, Name = ''tags'', Value = [], SetValues = [''3'', ''1'', ''2'']\<rparr> \<and>
   parseAttribute ''id'' (Encode \<lparr>Type = TYPE_BINARY, Name = ''id'', Value = ''AQI='', SetValues = []\<rparr>)
     = Some \<lparr>Type = TYPE_BINARY, Name = ''id'', Value = ''AQI='', SetValues = []\<rparr>"
  using Decode_Encode [of "\<lparr>Type = TYPE_NUMBER_SET, Name = ''tags'', Value = [], SetValues = [''3'', ''1'', ''2'']\<rparr>"]
        Decode_Encode [of "\<lparr>Type = TYPE_BINARY, Name = ''id'', Value = ''AQI='', SetValues = []\<rparr>"]
  by (simp add: setType_def scalarType_def)

text \<open>
  C10. Whenever \<open>parseAttributes\<close> decodes an entry to a set-typed attribute, the wire
  object holds a sequence under that tag, and \<open>SetValues\<close> is that sequence element by
  element: same length, same order, a string as itself and anything else as the empty string
  at its position. A wire object with the single key \<open>SS\<close>, \<open>NS\<close> or \<open>BS\<close> bound to a
  sequence is decoded so.
\<close>

theorem parseAttribute_set_values:
  "(parseAttribute key value = Some a \<and> setType (Type a) \<longrightarrow>
      (\<exists>v vals. value = JObject v \<and> map_of v (Type a) = Some (JArray vals) \<and>
         SetValues a = map elementText vals \<and> length (SetValues a) = length vals \<and>
         (\<forall>i < length vals. SetValues a ! i = elementText (vals ! i)))) \<and>
   (setType tag \<longrightarrow>
      parseAttribute key (JObject [(tag, JArray vals')])
        = Some \<lparr>Type = tag, Name = key, Value = [], SetValues = map elementText vals'\<rparr>)"
proof (intro conjI impI)
  assume a: "parseAttribute key value = Some a \<and> setType (Type a)"
  then have "\<not> scalarType (Type a)"
    by (auto simp: setType_def scalarType_def TYPE_defs)
  with a parseAttribute_Some [of key "value" a]
  obtain v vals where "value = JObject v" "map_of v (Type a) = Some (JArray vals)"
    "SetValues a = makeSet vals"
    by auto
  then show "\<exists>v vals. value = JObject v \<and> map_of v (Type a) = Some (JArray vals) \<and>
         SetValues a = map elementText vals \<and> length (SetValues a) = length vals \<and>
         (\<forall>i < length vals. SetValues a ! i = elementText (vals ! i))"
    by (simp add: makeSet_map)
next
  assume "setType tag"
  then show "parseAttribute key (JObject [(tag, JArray vals')])
        = Some \<lparr>Type = tag, Name = key, Value = [], SetValues = map elementText vals'\<rparr>"
    by (simp add: parseAttribute_single_set makeSet_map)
qed

theorem parseAttribute_set_values_witness:
  "parseAttribute ''tags'' mixedSet
     = Some \<lparr>Type = TYPE_STRING_SET, Name = ''tags'', Value = [], SetValues = [''a'', [], ''b'', []]\<rparr>"
proof -
  have "setType TYPE_STRING_SET" by (simp add: setType_def)
  then show ?thesis
    using parseAttribute_set_values
      [of "''tags''" mixedSet "\<lparr>Type = TYPE_STRING_SET, Name = ''tags'', Value = [], SetValues = []\<rparr>"
          TYPE_STRING_SET "[JString ''a'', JNumber ''1'', JString ''b'', JNull]"]
    by (simp add: mixedSet_def elementText_def TYPE_STRING_SET_def)
qed

end
